theory Spec2Isabelle
  imports Main "HOL-Library.Word"
begin

section \<open>JavaScript strings and values\<close>

text \<open>
  A JavaScript string is a sequence of 16-bit code units. Text of the source that is plain
  ASCII is written \<open>lit ''...''\<close>; the two characters of the source outside ASCII, the
  em dash and the bullet, are given by their code units.
\<close>

type_synonym jschar = "16 word"
type_synonym jsstring = "jschar list"

definition lit :: "string \<Rightarrow> jsstring" where
  "lit s = map (\<lambda>c. of_nat (of_char c)) s"

definition emdash :: jsstring where
  "emdash = [0x2014]"

definition bullet :: jsstring where
  "bullet = [0x2022]"

definition newline :: jsstring where
  "newline = [0x0A]"

text \<open>
  The values a field of the parsed JSON body, a request header or an environment variable
  can hold here: absent (\<open>undefined\<close>), \<open>null\<close>, a boolean or a string. JSON numbers,
  arrays and objects are not modelled: their conversion to a string is not part of this
  program.
\<close>

datatype jsval = JUndefined | JNull | JBool bool | JStr jsstring

text \<open>\<open>!v\<close> is \<open>\<not> truthy v\<close>.\<close>

fun truthy :: "jsval \<Rightarrow> bool" where
  "truthy JUndefined = False"
| "truthy JNull = False"
| "truthy (JBool b) = b"
| "truthy (JStr s) = (s \<noteq> [])"

text \<open>The conversion of template literals, of \<open>String(v)\<close> and of \<open>'...' + v\<close>.\<close>

fun ToString :: "jsval \<Rightarrow> jsstring" where
  "ToString JUndefined = lit ''undefined''"
| "ToString JNull = lit ''null''"
| "ToString (JBool b) = (if b then lit ''true'' else lit ''false'')"
| "ToString (JStr s) = s"

text \<open>\<open>a || b\<close>\<close>

definition or_else :: "jsval \<Rightarrow> jsval \<Rightarrow> jsval" where
  "or_else a b = (if truthy a then a else b)"

text \<open>\<open>process.env\<close>: a variable is a string, or is not set.\<close>

type_synonym env = "string \<rightharpoonup> jsstring"

definition getenv :: "env \<Rightarrow> string \<Rightarrow> jsval" where
  "getenv e k = (case e k of None \<Rightarrow> JUndefined | Some v \<Rightarrow> JStr v)"

datatype js_error = Error jsstring

fun message :: "js_error \<Rightarrow> jsstring" where
  "message (Error m) = m"

section \<open>Regular expressions\<close>

text \<open>
  \<open>\s\<close> of a regular expression without the unicode flag, which is also the set of
  characters \<open>String.prototype.trim\<close> removes (white space and line terminators).
\<close>

definition is_space :: "jschar \<Rightarrow> bool" where
  "is_space c \<longleftrightarrow>
     c = 0x09 \<or> c = 0x0A \<or> c = 0x0B \<or> c = 0x0C \<or> c = 0x0D \<or> c = 0x20 \<or> c = 0xA0 \<or>
     c = 0x1680 \<or> (0x2000 \<le> c \<and> c \<le> 0x200A) \<or> c = 0x2028 \<or> c = 0x2029 \<or>
     c = 0x202F \<or> c = 0x205F \<or> c = 0x3000 \<or> c = 0xFEFF"

text \<open>A member of a character class: a character, or \<open>\s\<close>.\<close>

datatype citem = CChar jschar | CSpace

fun citem_has :: "citem \<Rightarrow> jschar \<Rightarrow> bool" where
  "citem_has (CChar d) c = (c = d)"
| "citem_has CSpace c = is_space c"

text \<open>What matches one character: \<open>x\<close>, \<open>[...]\<close> or \<open>[^...]\<close>.\<close>

datatype atom = Lit jschar | Cls "citem list" | NCls "citem list"

fun atom_ok :: "atom \<Rightarrow> jschar \<Rightarrow> bool" where
  "atom_ok (Lit d) c = (c = d)"
| "atom_ok (Cls is) c = list_ex (\<lambda>i. citem_has i c) is"
| "atom_ok (NCls is) c = (\<not> list_ex (\<lambda>i. citem_has i c) is)"

datatype rexp = Zero | One | Atom atom | Alt rexp rexp | Seq rexp rexp | Star rexp

text \<open>\<open>r+\<close>\<close>

definition Plus :: "rexp \<Rightarrow> rexp" where
  "Plus r = Seq r (Star r)"

text \<open>
  Matching by derivatives: \<open>nullable r\<close> says that \<open>r\<close> matches the empty string,
  \<open>deriv c r\<close> matches what \<open>r\<close> matches after a leading \<open>c\<close>.
\<close>

fun nullable :: "rexp \<Rightarrow> bool" where
  "nullable Zero = False"
| "nullable One = True"
| "nullable (Atom a) = False"
| "nullable (Alt r s) = (nullable r \<or> nullable s)"
| "nullable (Seq r s) = (nullable r \<and> nullable s)"
| "nullable (Star r) = True"

fun deriv :: "jschar \<Rightarrow> rexp \<Rightarrow> rexp" where
  "deriv c Zero = Zero"
| "deriv c One = Zero"
| "deriv c (Atom a) = (if atom_ok a c then One else Zero)"
| "deriv c (Alt r s) = Alt (deriv c r) (deriv c s)"
| "deriv c (Seq r s) =
     (if nullable r then Alt (Seq (deriv c r) s) (deriv c s) else Seq (deriv c r) s)"
| "deriv c (Star r) = Seq (deriv c r) (Star r)"

text \<open>\<open>/^r$/.test(s)\<close>: the whole of \<open>s\<close> matches \<open>r\<close>.\<close>

fun test_anchored :: "rexp \<Rightarrow> jsstring \<Rightarrow> bool" where
  "test_anchored r [] = nullable r"
| "test_anchored r (c # cs) = test_anchored (deriv c r) cs"

text \<open>\<open>s.replace(/a/g, rep)\<close> for a pattern \<open>a\<close> of one character.\<close>

fun replace_all :: "atom \<Rightarrow> jsstring \<Rightarrow> jsstring \<Rightarrow> jsstring" where
  "replace_all a rep [] = []"
| "replace_all a rep (c # cs) =
     (if atom_ok a c then rep @ replace_all a rep cs else c # replace_all a rep cs)"

text \<open>The languages of regular expressions, to say what the matcher decides.\<close>

definition conc :: "jsstring set \<Rightarrow> jsstring set \<Rightarrow> jsstring set" where
  "conc A B = {u @ v | u v. u \<in> A \<and> v \<in> B}"

inductive_set star :: "jsstring set \<Rightarrow> jsstring set" for A :: "jsstring set" where
  star_empty: "[] \<in> star A"
| star_app: "u \<in> A \<Longrightarrow> v \<in> star A \<Longrightarrow> u @ v \<in> star A"

fun lang :: "rexp \<Rightarrow> jsstring set" where
  "lang Zero = {}"
| "lang One = {[]}"
| "lang (Atom a) = {[c] | c. atom_ok a c}"
| "lang (Alt r s) = lang r \<union> lang s"
| "lang (Seq r s) = conc (lang r) (lang s)"
| "lang (Star r) = star (lang r)"

section \<open>Helpers of the server\<close>

text \<open>
  \<open>const isEmail = (v = '') => /^[^\s@]+@[^\s@]+\.[^\s@]+$/.test(v)\<close>
\<close>

definition not_space_at :: atom where
  "not_space_at = NCls [CSpace, CChar 0x40]"

definition email_re :: rexp where
  "email_re =
     Seq (Plus (Atom not_space_at))
       (Seq (Atom (Lit 0x40))
         (Seq (Plus (Atom not_space_at))
           (Seq (Atom (Lit 0x2E)) (Plus (Atom not_space_at)))))"

definition isEmail :: "jsval \<Rightarrow> bool" where
  "isEmail v = test_anchored email_re (case v of JUndefined \<Rightarrow> [] | _ \<Rightarrow> ToString v)"

text \<open>
  The pattern of \<open>isEmail\<close> in words: a string \<open>a@b.c\<close> where \<open>a\<close>, \<open>b\<close> and \<open>c\<close> are
  not empty and hold neither white space nor \<open>@\<close>.
\<close>

definition plain :: "jsstring \<Rightarrow> bool" where
  "plain s \<longleftrightarrow> s \<noteq> [] \<and> list_all (\<lambda>c. \<not> is_space c \<and> c \<noteq> 0x40) s"

text \<open>\<open>const nowISO = () => new Date().toISOString()\<close>: the clock is a parameter,
  \<open>now\<close>, of the handlers.\<close>

text \<open>\<open>s.trim()\<close> and \<open>s.split(',')\<close>\<close>

definition trim :: "jsstring \<Rightarrow> jsstring" where
  "trim s = rev (dropWhile is_space (rev (dropWhile is_space s)))"

fun split_on :: "jschar \<Rightarrow> jsstring \<Rightarrow> jsstring list" where
  "split_on sep [] = [[]]"
| "split_on sep (c # cs) =
     (let r = split_on sep cs in if c = sep then [] # r else (c # hd r) # tl r)"

text \<open>The inverse of \<open>split\<close>: \<open>xs.join(sep)\<close>.\<close>

fun join_with :: "jschar \<Rightarrow> jsstring list \<Rightarrow> jsstring" where
  "join_with sep [] = []"
| "join_with sep [x] = x"
| "join_with sep (x # y # ys) = x @ sep # join_with sep (y # ys)"

text \<open>\<open>xs.includes(v)\<close> on an array of strings.\<close>

fun array_includes :: "jsstring list \<Rightarrow> jsval \<Rightarrow> bool" where
  "array_includes xs (JStr s) = (s \<in> set xs)"
| "array_includes xs v = False"

section \<open>The perimeter: the origin callback of cors\<close>

text \<open>
  \<^verbatim>\<open>
  origin: (origin, cb) => {
      const allow = (process.env.ALLOWED_ORIGIN || '')
          .split(',').map((s) => s.trim()).filter(Boolean);
      if (!origin || allow.includes(origin)) return cb(null, true);
      return cb(new Error('CORS blocked from origin: ' + origin));
  }
  \<close>
  The same in both server files. \<open>Inr True\<close> is \<open>cb(null, true)\<close>, \<open>Inl e\<close> is \<open>cb(e)\<close>.
\<close>

definition allow_list :: "env \<Rightarrow> jsstring list" where
  "allow_list e =
     filter (\<lambda>s. truthy (JStr s))
       (map trim (split_on 0x2C (ToString (or_else (getenv e ''ALLOWED_ORIGIN'') (JStr [])))))"

definition cors_origin :: "env \<Rightarrow> jsval \<Rightarrow> js_error + bool" where
  "cors_origin e origin =
     (let allow = allow_list e in
      if \<not> truthy origin \<or> array_includes allow origin then Inr True
      else Inl (Error (lit ''CORS blocked from origin: '' @ ToString origin)))"

section \<open>The mail transport, as the handlers see it\<close>

datatype mail_body = Text jsstring | Html jsstring

record MailMessage =
  mail_from :: jsstring
  mail_to :: jsval
  replyTo :: jsval
  subject :: jsstring
  content :: mail_body

text \<open>What \<open>sendMail\<close> resolves with: an object whose \<open>messageId\<close> is read.\<close>

record send_info =
  messageId :: jsval

text \<open>
  The promise \<open>transporter.sendMail(msg)\<close> returns, by what has become of it when the
  handler stops waiting for it: fulfilled, rejected, or still pending (for
  \<open>sendWithTimeout\<close>: when its timer fires; for a plain \<open>await\<close>: for ever).
\<close>

datatype 'a promise = Fulfilled 'a | Rejected js_error | Pending

type_synonym transporter = "MailMessage \<Rightarrow> send_info promise"



text \<open>
  \<^verbatim>\<open>
  async function sendWithTimeout(sendPromise, ms = 6000) {
      let to;
      const timeout = new Promise((_, rej) => {
          to = setTimeout(() => rej(new Error('SMTP_TIMEOUT')), ms);
      });
      try { return await Promise.race([sendPromise, timeout]); }
      finally { clearTimeout(to); }
  }
  \<close>
  The result is how the race settles. The length \<open>ms\<close> of the delay has no other part in
  this model than to say which timer \<open>Pending\<close> is about.
\<close>

definition sendWithTimeout :: "'a promise \<Rightarrow> nat \<Rightarrow> js_error + 'a" where
  "sendWithTimeout sendPromise ms =
     (case sendPromise of
        Fulfilled v \<Rightarrow> Inr v
      | Rejected e \<Rightarrow> Inl e
      | Pending \<Rightarrow> Inl (Error (lit ''SMTP_TIMEOUT'')))"

text \<open>
  \<open>await Promise.all([p, q])\<close>: both values, or the reason of the promise that rejects
  first. When both reject, \<open>second_first\<close> says that the second did so before the first.
\<close>

definition Promise_all ::
  "bool \<Rightarrow> js_error + 'a \<Rightarrow> js_error + 'b \<Rightarrow> js_error + ('a \<times> 'b)" where
  "Promise_all second_first p q =
     (case p of
        Inr a \<Rightarrow> (case q of Inr b \<Rightarrow> Inr (a, b) | Inl e \<Rightarrow> Inl e)
      | Inl e \<Rightarrow> (case q of Inr b \<Rightarrow> Inl e | Inl e' \<Rightarrow> Inl (if second_first then e' else e)))"

section \<open>The estimate handler\<close>

type_synonym jsobject = "string \<rightharpoonup> jsval"

text \<open>\<open>obj.k\<close>, and the destructuring \<open>const { k } = obj\<close>.\<close>

definition get_prop :: "jsobject \<Rightarrow> string \<Rightarrow> jsval" where
  "get_prop obj k = (case obj k of None \<Rightarrow> JUndefined | Some v \<Rightarrow> v)"

text \<open>\<open>req.body || {}\<close>: \<open>None\<close> is a request without a parsed body.\<close>

definition body_or_empty :: "jsobject option \<Rightarrow> jsobject" where
  "body_or_empty b = (case b of None \<Rightarrow> Map.empty | Some obj \<Rightarrow> obj)"

text \<open>
  A response: \<open>res.status(n).json(obj)\<close>. The object is the list of its properties in the
  order of the source; a property whose value is \<open>undefined\<close> is left out when the object
  is serialised.
\<close>

record response =
  status :: nat
  body :: "(string \<times> jsval) list"

text \<open>
  What one run of a handler does: its response, the messages it handed to
  \<open>transporter.sendMail\<close>, in order, and the errors it wrote to the server's log.
\<close>

record 'r run =
  reply :: 'r
  sendCalls :: "MailMessage list"
  logged :: "js_error list"

definition FROM_NAME :: "env \<Rightarrow> jsval" where
  "FROM_NAME e = or_else (getenv e ''FROM_NAME'') (JStr (lit ''Website''))"

definition FROM_ADDR :: "env \<Rightarrow> jsval" where
  "FROM_ADDR e = getenv e ''MAIL_USER''"

definition LEADS_TO :: "env \<Rightarrow> jsval" where
  "LEADS_TO e = or_else (getenv e ''LEADS_TO'') (JStr (lit ''joe@patioblindsdirect.com''))"

text \<open>\<open>`"${FROM_NAME}" <${FROM_ADDR}>`\<close>\<close>

definition from_header :: "env \<Rightarrow> jsstring" where
  "from_header e =
     [0x22] @ ToString (FROM_NAME e) @ [0x22] @ lit '' <'' @ ToString (FROM_ADDR e) @ lit ''>''"

text \<open>\<open>lines.join('\n')\<close>\<close>

fun join_lines :: "jsstring list \<Rightarrow> jsstring" where
  "join_lines [] = []"
| "join_lines [l] = l"
| "join_lines (l # ls) = l @ newline @ join_lines ls"

text \<open>The internal lead notice; the object literal is the same in both server files.\<close>

definition internalText :: "jsstring \<Rightarrow> jsobject \<Rightarrow> jsstring" where
  "internalText now b =
     join_lines
       [lit ''Name: '' @ ToString (get_prop b ''name''),
        lit ''Email: '' @ ToString (get_prop b ''email''),
        lit ''Phone: '' @ ToString (get_prop b ''phone''),
        lit ''City: '' @ ToString (get_prop b ''city''),
        lit ''Type: '' @ ToString (or_else (get_prop b ''type'') (JStr emdash)),
        lit ''Message: '' @ ToString (or_else (get_prop b ''message'') (JStr emdash)),
        lit ''Submitted: '' @ now]"

definition internal_mail :: "env \<Rightarrow> jsstring \<Rightarrow> jsobject \<Rightarrow> MailMessage" where
  "internal_mail e now b =
     \<lparr>mail_from = from_header e,
      mail_to = LEADS_TO e,
      replyTo = get_prop b ''email'',
      subject = lit ''New Estimate '' @ emdash @ lit '' '' @ ToString (get_prop b ''name'')
                @ lit '' ('' @ ToString (get_prop b ''city'') @ lit '')'',
      content = Text (internalText now b)\<rparr>"

text \<open>
  The auto-reply. \<open>message_html\<close> is
  \<open>${message ? String(message).replace(/[<>]/g, '') : dash}\<close>, where \<open>dash\<close> stands for
  the em dash in quotes; the other pieces of the template are interpolated as they are.
\<close>

definition angle :: atom where
  "angle = Cls [CChar 0x3C, CChar 0x3E]"

definition message_html :: "jsval \<Rightarrow> jsstring" where
  "message_html m = (if truthy m then replace_all angle [] (ToString m) else emdash)"

definition html_head :: jsstring where
  "html_head =
     newline
     @ lit ''        <div style='' @ [0x22]
     @ lit ''font-family:Inter,system-ui,Arial,sans-serif;line-height:1.6;color:#111''
     @ [0x22] @ lit ''>'' @ newline
     @ lit ''          <h2 style='' @ [0x22] @ lit ''margin:0 0 8px'' @ [0x22]
     @ lit ''>Thanks, ''"

definition html_intro :: jsstring where
  "html_intro =
     lit ''!</h2>'' @ newline
     @ lit ''          <p>We received your request for a free estimate. A specialist will contact you shortly.</p>''
     @ newline
     @ lit ''          <p><strong>Summary</strong><br>'' @ newline
     @ lit ''          Phone: ''"

definition html_city :: jsstring where
  "html_city = lit ''<br>'' @ newline @ lit ''          City: ''"

definition html_type :: jsstring where
  "html_type = lit ''<br>'' @ newline @ lit ''          Blind Type: ''"

definition html_message :: jsstring where
  "html_message = lit ''<br>'' @ newline @ lit ''          Message: ''"

definition html_foot :: jsstring where
  "html_foot =
     lit ''</p>'' @ newline
     @ lit ''          <p>Questions? Reply to this email or call (626) 430-4003.</p>''
     @ newline
     @ lit ''          <p style='' @ [0x22] @ lit ''color:#6b7280'' @ [0x22]
     @ lit ''>Patio Blinds Direct '' @ bullet
     @ lit '' Serving all Southern California</p>'' @ newline
     @ lit ''        </div>'' @ newline
     @ lit ''      ''"

definition autoresp_html :: "jsobject \<Rightarrow> jsstring" where
  "autoresp_html b =
     html_head @ ToString (get_prop b ''name'')
     @ html_intro @ ToString (get_prop b ''phone'')
     @ html_city @ ToString (get_prop b ''city'')
     @ html_type @ ToString (or_else (get_prop b ''type'') (JStr emdash))
     @ html_message @ message_html (get_prop b ''message'')
     @ html_foot"

definition autoresp_mail :: "env \<Rightarrow> jsobject \<Rightarrow> MailMessage" where
  "autoresp_mail e b =
     \<lparr>mail_from = from_header e,
      mail_to = get_prop b ''email'',
      replyTo = LEADS_TO e,
      subject = lit ''We received your estimate request '' @ emdash
                @ lit '' Patio Blinds Direct'',
      content = Html (autoresp_html b)\<rparr>"

definition failure :: "nat \<Rightarrow> string \<Rightarrow> response" where
  "failure code tag = \<lparr>status = code, body = [(''ok'', JBool False), (''error'', JStr (lit tag))]\<rparr>"

text \<open>
  The handler of \<open>POST /api/send-estimate\<close> of the server that has the send timeout and
  the switch \<open>DISABLE_EMAIL\<close> (the file the specification describes). \<open>now\<close> is what
  \<open>nowISO()\<close> returns, \<open>sendMail\<close> the transport, \<open>second_first\<close> the order of two
  rejections (see \<open>Promise_all\<close>), \<open>reqBody\<close> is \<open>req.body\<close>. Both messages are handed to
  the transport before either promise is awaited.
\<close>

definition send_estimate ::
  "env \<Rightarrow> jsstring \<Rightarrow> transporter \<Rightarrow> bool \<Rightarrow> jsobject option \<Rightarrow> response run" where
  "send_estimate e now sendMail second_first reqBody =
     (let b = body_or_empty reqBody in
      if \<not> truthy (get_prop b ''name'') \<or> \<not> truthy (get_prop b ''email'')
         \<or> \<not> truthy (get_prop b ''phone'') \<or> \<not> truthy (get_prop b ''city'')
      then \<lparr>reply = failure 400 ''MISSING_FIELDS'', sendCalls = [], logged = []\<rparr>
      else if \<not> isEmail (get_prop b ''email'')
      then \<lparr>reply = failure 400 ''INVALID_EMAIL'', sendCalls = [], logged = []\<rparr>
      else if getenv e ''DISABLE_EMAIL'' = JStr (lit ''true'')
      then \<lparr>reply = \<lparr>status = 200,
                     body = [(''ok'', JBool True), (''note'', JStr (lit ''email disabled'')),
                             (''submittedAt'', JStr now)]\<rparr>,
            sendCalls = [], logged = []\<rparr>
      else
        let internalP = sendMail (internal_mail e now b);
            autorespP = sendMail (autoresp_mail e b)
        in case Promise_all second_first
                  (sendWithTimeout internalP 7000) (sendWithTimeout autorespP 7000) of
             Inr (internal, autoresp) \<Rightarrow>
               \<lparr>reply = \<lparr>status = 200,
                         body = [(''ok'', JBool True),
                                 (''leadId'', or_else (messageId internal) JNull),
                                 (''autoId'', or_else (messageId autoresp) JNull)]\<rparr>,
                sendCalls = [internal_mail e now b, autoresp_mail e b], logged = []\<rparr>
           | Inl err \<Rightarrow>
               (let code = (if message err = lit ''SMTP_TIMEOUT'' then 504 else 502) in
                \<lparr>reply = failure code ''MAIL_SEND_FAILED'',
                 sendCalls = [internal_mail e now b, autoresp_mail e b],
                 logged = [err]\<rparr>))"

text \<open>
  The handler of the other server file, \<open>index.js\<close>: the same validation and the same two
  messages, sent one after the other with a plain \<open>await\<close>, no switch, no timer, and
  status 500 for every failure. A send that never settles leaves the request without a
  response (\<open>None\<close>).
\<close>

definition send_estimate_index ::
  "env \<Rightarrow> jsstring \<Rightarrow> transporter \<Rightarrow> jsobject option \<Rightarrow> response option run" where
  "send_estimate_index e now sendMail reqBody =
     (let b = body_or_empty reqBody in
      if \<not> truthy (get_prop b ''name'') \<or> \<not> truthy (get_prop b ''email'')
         \<or> \<not> truthy (get_prop b ''phone'') \<or> \<not> truthy (get_prop b ''city'')
      then \<lparr>reply = Some (failure 400 ''MISSING_FIELDS''), sendCalls = [], logged = []\<rparr>
      else if \<not> isEmail (get_prop b ''email'')
      then \<lparr>reply = Some (failure 400 ''INVALID_EMAIL''), sendCalls = [], logged = []\<rparr>
      else
        case sendMail (internal_mail e now b) of
          Pending \<Rightarrow> \<lparr>reply = None, sendCalls = [internal_mail e now b], logged = []\<rparr>
        | Rejected err \<Rightarrow>
            \<lparr>reply = Some (failure 500 ''MAIL_SEND_FAILED''),
             sendCalls = [internal_mail e now b], logged = [err]\<rparr>
        | Fulfilled internal \<Rightarrow>
            (case sendMail (autoresp_mail e b) of
               Pending \<Rightarrow>
                 \<lparr>reply = None,
                  sendCalls = [internal_mail e now b, autoresp_mail e b], logged = []\<rparr>
             | Rejected err \<Rightarrow>
                 \<lparr>reply = Some (failure 500 ''MAIL_SEND_FAILED''),
                  sendCalls = [internal_mail e now b, autoresp_mail e b], logged = [err]\<rparr>
             | Fulfilled autoresp \<Rightarrow>
                 \<lparr>reply = Some \<lparr>status = 200,
                                body = [(''ok'', JBool True),
                                        (''leadId'', messageId internal),
                                        (''autoId'', messageId autoresp)]\<rparr>,
                  sendCalls = [internal_mail e now b, autoresp_mail e b], logged = []\<rparr>))"

text \<open>
  The requests the handlers accept for sending: the four required fields pass the test
  \<open>!field\<close> and the email matches the pattern.
\<close>

definition accepted :: "jsobject option \<Rightarrow> bool" where
  "accepted reqBody \<longleftrightarrow>
     (let b = body_or_empty reqBody in
      truthy (get_prop b ''name'') \<and> truthy (get_prop b ''email'')
      \<and> truthy (get_prop b ''phone'') \<and> truthy (get_prop b ''city'')
      \<and> isEmail (get_prop b ''email''))"

text \<open>\<open>hay\<close> contains \<open>needle\<close> as a run of consecutive characters.\<close>

fun starts_with :: "jsstring \<Rightarrow> jsstring \<Rightarrow> bool" where
  "starts_with s [] = True"
| "starts_with [] (n # ns) = False"
| "starts_with (c # cs) (n # ns) = (c = n \<and> starts_with cs ns)"

fun contains :: "jsstring \<Rightarrow> jsstring \<Rightarrow> bool" where
  "contains [] needle = (needle = [])"
| "contains (c # cs) needle = (starts_with (c # cs) needle \<or> contains cs needle)"

section \<open>Example inputs\<close>

definition env0 :: env where
  "env0 = [''MAIL_USER'' \<mapsto> lit ''no-reply@shop.test'', ''ALLOWED_ORIGIN'' \<mapsto> lit ''https://a.test, ,https://b.test '']"

definition env_disabled :: env where
  "env_disabled = env0(''DISABLE_EMAIL'' \<mapsto> lit ''true'')"

definition now0 :: jsstring where
  "now0 = lit ''2024-05-01T10:00:00.000Z''"

definition body0 :: jsobject where
  "body0 = [''name'' \<mapsto> JStr (lit ''Al''), ''email'' \<mapsto> JStr (lit ''al@b.co''),
            ''phone'' \<mapsto> JStr (lit ''555''), ''city'' \<mapsto> JStr (lit ''LA'')]"

text \<open>A request whose name and message carry markup.\<close>

definition body_markup :: jsobject where
  "body_markup = body0(''name'' \<mapsto> JStr (lit ''<b>Al</b>''),
                       ''message'' \<mapsto> JStr (lit ''<i>hi</i> 1 > 0''))"

text \<open>A relay that delivers, and names each message after its recipient.\<close>

definition relay_ok :: transporter where
  "relay_ok m = Fulfilled \<lparr>messageId = JStr (lit ''<'' @ ToString (mail_to m) @ lit ''>'')\<rparr>"

text \<open>A relay that refuses the connection, and one that never answers.\<close>

definition relay_down :: transporter where
  "relay_down m = Rejected (Error (lit ''connect ECONNREFUSED''))"

definition relay_hung :: transporter where
  "relay_hung m = Pending"

section \<open>Facts about strings and the matcher\<close>

lemma lit_simps: "lit [] = []" "lit (c # cs) = of_nat (of_char c) # lit cs"
  by (simp_all add: lit_def)

lemma conc_nil_iff: "[] \<in> conc A B \<longleftrightarrow> [] \<in> A \<and> [] \<in> B"
  by (auto simp: conc_def)

lemma nullable_lang: "nullable r \<longleftrightarrow> [] \<in> lang r"
  by (induction r) (auto simp: conc_nil_iff intro: star.star_empty)

lemma conc_Cons_iff:
  "c # w \<in> conc A B \<longleftrightarrow>
     (\<exists>u v. w = u @ v \<and> c # u \<in> A \<and> v \<in> B) \<or> ([] \<in> A \<and> c # w \<in> B)"
proof
  assume "c # w \<in> conc A B"
  then obtain u v where uv: "c # w = u @ v" "u \<in> A" "v \<in> B"
    by (auto simp: conc_def)
  show "(\<exists>u v. w = u @ v \<and> c # u \<in> A \<and> v \<in> B) \<or> ([] \<in> A \<and> c # w \<in> B)"
  proof (cases u)
    case Nil
    with uv show ?thesis by simp
  next
    case (Cons d u')
    with uv have "w = u' @ v" "c # u' \<in> A" by simp_all
    with uv show ?thesis by blast
  qed
next
  assume "(\<exists>u v. w = u @ v \<and> c # u \<in> A \<and> v \<in> B) \<or> ([] \<in> A \<and> c # w \<in> B)"
  then show "c # w \<in> conc A B"
  proof
    assume "\<exists>u v. w = u @ v \<and> c # u \<in> A \<and> v \<in> B"
    then obtain u v where "w = u @ v" "c # u \<in> A" "v \<in> B" by blast
    then have "c # w = (c # u) @ v" by simp
    with \<open>c # u \<in> A\<close> \<open>v \<in> B\<close> show ?thesis unfolding conc_def by blast
  next
    assume "[] \<in> A \<and> c # w \<in> B"
    then have "c # w = [] @ (c # w)" "[] \<in> A" "c # w \<in> B" by simp_all
    then show ?thesis unfolding conc_def by blast
  qed
qed

lemma star_Cons_split:
  assumes "x \<in> star A" "x = c # w"
  shows "\<exists>u v. w = u @ v \<and> c # u \<in> A \<and> v \<in> star A"
  using assms
proof (induction rule: star.induct)
  case star_empty
  then show ?case by simp
next
  case (star_app u v)
  show ?case
  proof (cases u)
    case Nil
    with star_app show ?thesis by simp
  next
    case (Cons d u')
    with star_app.prems have "d = c" "w = u' @ v" by simp_all
    with Cons star_app.hyps show ?thesis by blast
  qed
qed

lemma star_Cons_iff:
  "c # w \<in> star A \<longleftrightarrow> (\<exists>u v. w = u @ v \<and> c # u \<in> A \<and> v \<in> star A)"
proof
  assume "c # w \<in> star A"
  then show "\<exists>u v. w = u @ v \<and> c # u \<in> A \<and> v \<in> star A"
    by (rule star_Cons_split) simp
next
  assume "\<exists>u v. w = u @ v \<and> c # u \<in> A \<and> v \<in> star A"
  then obtain u v where "w = u @ v" "c # u \<in> A" "v \<in> star A" by blast
  then show "c # w \<in> star A"
    using star.star_app [of "c # u" A v] by simp
qed

lemma deriv_lang: "w \<in> lang (deriv c r) \<longleftrightarrow> c # w \<in> lang r"
proof (induction r arbitrary: w)
  case (Seq r s)
  then show ?case
    by (auto simp: conc_Cons_iff nullable_lang) (auto simp: conc_def)
next
  case (Star r)
  then show ?case
    by (auto simp: star_Cons_iff) (auto simp: conc_def)
qed auto

lemma test_anchored_lang: "test_anchored r s \<longleftrightarrow> s \<in> lang r"
  by (induction s arbitrary: r) (simp_all add: nullable_lang deriv_lang)

lemma star_atoms:
  "s \<in> star {[c] | c. atom_ok a c} \<longleftrightarrow> (\<forall>c \<in> set s. atom_ok a c)"
proof
  assume "s \<in> star {[c] | c. atom_ok a c}"
  then show "\<forall>c \<in> set s. atom_ok a c"
    by (induction rule: star.induct) auto
next
  assume "\<forall>c \<in> set s. atom_ok a c"
  then show "s \<in> star {[c] | c. atom_ok a c}"
  proof (induction s)
    case Nil
    show ?case by (rule star.star_empty)
  next
    case (Cons c s)
    then have "[c] \<in> {[c] | c. atom_ok a c}" "s \<in> star {[c] | c. atom_ok a c}"
      by simp_all
    then have "[c] @ s \<in> star {[c] | c. atom_ok a c}" by (rule star.star_app)
    then show ?case by simp
  qed
qed

lemma lang_Plus_Atom:
  "s \<in> lang (Plus (Atom a)) \<longleftrightarrow> s \<noteq> [] \<and> (\<forall>c \<in> set s. atom_ok a c)"
proof (cases s)
  case Nil
  then show ?thesis by (simp add: Plus_def conc_nil_iff)
next
  case (Cons c w)
  have "c # w \<in> conc {[c] | c. atom_ok a c} (star {[c] | c. atom_ok a c}) \<longleftrightarrow>
          atom_ok a c \<and> w \<in> star {[c] | c. atom_ok a c}"
    by (auto simp: conc_Cons_iff)
  with Cons show ?thesis by (simp add: Plus_def star_atoms)
qed

lemma not_space_at_ok: "atom_ok not_space_at c \<longleftrightarrow> \<not> is_space c \<and> c \<noteq> 0x40"
  by (simp add: not_space_at_def)

lemma lang_Seq_iff:
  "s \<in> lang (Seq r t) \<longleftrightarrow> (\<exists>u v. s = u @ v \<and> u \<in> lang r \<and> v \<in> lang t)"
  by (auto simp: conc_def)

lemma lang_Lit: "s \<in> lang (Atom (Lit d)) \<longleftrightarrow> s = [d]"
  by auto

lemma lang_plain: "w \<in> lang (Plus (Atom not_space_at)) \<longleftrightarrow> plain w"
  by (simp add: lang_Plus_Atom not_space_at_ok plain_def list_all_iff)

lemma email_re_lang:
  "s \<in> lang email_re \<longleftrightarrow>
     (\<exists>a b c. s = a @ [0x40] @ b @ [0x2E] @ c \<and> plain a \<and> plain b \<and> plain c)"
proof -
  have unfolded: "s \<in> lang email_re \<longleftrightarrow>
          (\<exists>a r1. s = a @ r1 \<and> plain a \<and>
            (\<exists>x r2. r1 = x @ r2 \<and> x = [0x40] \<and>
              (\<exists>b r3. r2 = b @ r3 \<and> plain b \<and>
                (\<exists>y c. r3 = y @ c \<and> y = [0x2E] \<and> plain c))))"
    unfolding email_re_def by (simp only: lang_Seq_iff lang_Lit lang_plain)
  show ?thesis
  proof
    assume "s \<in> lang email_re"
    with unfolded obtain a r1 x r2 b r3 y c where
      "s = a @ r1" "plain a" "r1 = x @ r2" "x = [0x40]" "r2 = b @ r3" "plain b"
      "r3 = y @ c" "y = [0x2E]" "plain c"
      by blast
    then have "s = a @ [0x40] @ b @ [0x2E] @ c \<and> plain a \<and> plain b \<and> plain c"
      by simp
    then show "\<exists>a b c. s = a @ [0x40] @ b @ [0x2E] @ c \<and> plain a \<and> plain b \<and> plain c"
      by blast
  next
    assume "\<exists>a b c. s = a @ [0x40] @ b @ [0x2E] @ c \<and> plain a \<and> plain b \<and> plain c"
    then obtain a b c where
      s: "s = a @ [0x40] @ b @ [0x2E] @ c" and p: "plain a" "plain b" "plain c"
      by blast
    have "\<exists>y c'. [0x2E] @ c = y @ c' \<and> y = [0x2E] \<and> plain c'"
      using p by blast
    then have "\<exists>b' r3. b @ [0x2E] @ c = b' @ r3 \<and> plain b' \<and>
                (\<exists>y c'. r3 = y @ c' \<and> y = [0x2E] \<and> plain c')"
      using p by blast
    then have "\<exists>x r2. [0x40] @ b @ [0x2E] @ c = x @ r2 \<and> x = [0x40] \<and>
              (\<exists>b' r3. r2 = b' @ r3 \<and> plain b' \<and>
                (\<exists>y c'. r3 = y @ c' \<and> y = [0x2E] \<and> plain c'))"
      by blast
    with s p have "\<exists>a' r1. s = a' @ r1 \<and> plain a' \<and>
            (\<exists>x r2. r1 = x @ r2 \<and> x = [0x40] \<and>
              (\<exists>b r3. r2 = b @ r3 \<and> plain b \<and>
                (\<exists>y c. r3 = y @ c \<and> y = [0x2E] \<and> plain c)))"
      by blast
    with unfolded show "s \<in> lang email_re" by simp
  qed
qed

lemma isEmail_JStr:
  "isEmail (JStr s) \<longleftrightarrow>
     (\<exists>a b c. s = a @ [0x40] @ b @ [0x2E] @ c \<and> plain a \<and> plain b \<and> plain c)"
  by (simp add: isEmail_def test_anchored_lang email_re_lang)

lemma not_test_nil: "\<not> nullable email_re"
  by (simp add: email_re_def Plus_def)

lemma isEmail_ToString:
  assumes "isEmail v"
  shows "\<exists>a b c. ToString v = a @ [0x40] @ b @ [0x2E] @ c \<and> plain a \<and> plain b \<and> plain c"
proof (cases "v = JUndefined")
  case True
  with assms show ?thesis by (simp add: isEmail_def not_test_nil)
next
  case False
  then have "(case v of JUndefined \<Rightarrow> [] | _ \<Rightarrow> ToString v) = ToString v"
    by (cases v) simp_all
  with assms have "ToString v \<in> lang email_re"
    by (simp add: isEmail_def test_anchored_lang)
  then show ?thesis by (simp only: email_re_lang)
qed

lemma plain_no_at: "plain a \<Longrightarrow> 0x40 \<notin> set a"
  by (auto simp: plain_def list_all_iff)

lemma isEmail_one_at:
  assumes "isEmail v" and split: "ToString v = pre @ [0x40] @ post"
  shows "0x2E \<in> set post"
proof -
  from assms(1) obtain a b c where
    s: "ToString v = a @ [0x40] @ b @ [0x2E] @ c" and p: "plain a" "plain b" "plain c"
    using isEmail_ToString by blast
  from p have "0x40 \<notin> set a" and "(0x40 :: jschar) \<notin> set (b @ [0x2E] @ c)"
    by (simp_all add: plain_no_at)
  moreover from s split have "a @ 0x40 # (b @ [0x2E] @ c) = pre @ 0x40 # post" by simp
  ultimately have "post = b @ [0x2E] @ c"
    by (simp add: append_Cons_eq_iff)
  then show ?thesis by simp
qed

lemma isEmail_has_at: "isEmail v \<Longrightarrow> 0x40 \<in> set (ToString v)"
  using isEmail_ToString [of v] by auto

lemma split_on_not_Nil: "split_on sep s \<noteq> []"
  by (induction s) (simp_all add: Let_def)

lemma split_on_no_sep: "seg \<in> set (split_on sep s) \<Longrightarrow> sep \<notin> set seg"
proof (induction s arbitrary: seg)
  case Nil
  then show ?case by simp
next
  case (Cons c s)
  obtain w ws where r: "split_on sep s = w # ws"
    using split_on_not_Nil [of sep s] by (cases "split_on sep s") auto
  with Cons show ?case
    by (cases "c = sep") (auto simp: Let_def)
qed

lemma join_split_on: "join_with sep (split_on sep s) = s"
proof (induction s)
  case Nil
  show ?case by simp
next
  case (Cons c s)
  obtain w ws where r: "split_on sep s = w # ws"
    using split_on_not_Nil [of sep s] by (cases "split_on sep s") auto
  with Cons show ?case
    by (cases ws) (auto simp: Let_def)
qed

lemma trim_decomp:
  "dropWhile is_space s = trim s @ rev (takeWhile is_space (rev (dropWhile is_space s)))"
proof -
  let ?m = "dropWhile is_space s"
  have "?m = rev (takeWhile is_space (rev ?m) @ dropWhile is_space (rev ?m))"
    by simp
  also have "\<dots> = rev (dropWhile is_space (rev ?m)) @ rev (takeWhile is_space (rev ?m))"
    by (simp only: rev_append)
  finally show ?thesis by (simp only: trim_def)
qed

lemma trim_spaces:
  "\<exists>l r. s = l @ trim s @ r \<and> list_all is_space l \<and> list_all is_space r"
proof -
  let ?l = "takeWhile is_space s"
  let ?r = "rev (takeWhile is_space (rev (dropWhile is_space s)))"
  have "s = ?l @ dropWhile is_space s" by simp
  with trim_decomp [of s] have "s = ?l @ trim s @ ?r" by simp
  moreover have "list_all is_space ?l" "list_all is_space ?r"
    by (auto simp: list_all_iff dest: set_takeWhileD)
  ultimately show ?thesis by blast
qed

lemma trim_ends:
  assumes "trim s \<noteq> []"
  shows "\<not> is_space (hd (trim s))" and "\<not> is_space (last (trim s))"
proof -
  let ?m = "dropWhile is_space s"
  from assms have ne: "dropWhile is_space (rev ?m) \<noteq> []" by (simp add: trim_def)
  then have "\<not> is_space (hd (dropWhile is_space (rev ?m)))" by (rule hd_dropWhile)
  with ne show "\<not> is_space (last (trim s))" by (simp add: trim_def last_rev)
  from assms trim_decomp [of s] have m: "?m \<noteq> []" and "hd ?m = hd (trim s)"
    by (metis append_is_Nil_conv, metis hd_append2)
  then show "\<not> is_space (hd (trim s))" using hd_dropWhile [of is_space s] by simp
qed

lemma lit_append: "lit (a @ b) = lit a @ lit b"
  by (simp add: lit_def)

lemma starts_with_iff: "starts_with s n \<longleftrightarrow> (\<exists>post. s = n @ post)"
  by (induction s n rule: starts_with.induct) auto

lemma starts_with_contains: "starts_with s n \<Longrightarrow> contains s n"
  by (cases s; cases n) simp_all

lemma contains_middle: "contains (pre @ n @ post) n"
proof (induction pre)
  case Nil
  have "starts_with (n @ post) n" by (simp add: starts_with_iff)
  then show ?case by (simp add: starts_with_contains)
next
  case (Cons c pre)
  then show ?case by simp
qed

lemma contains_iff: "contains hay n \<longleftrightarrow> (\<exists>pre post. hay = pre @ n @ post)"
proof
  show "contains hay n \<Longrightarrow> \<exists>pre post. hay = pre @ n @ post"
  proof (induction hay)
    case Nil
    then show ?case by simp
  next
    case (Cons c cs)
    from Cons.prems have "starts_with (c # cs) n \<or> contains cs n" by simp
    then show ?case
    proof
      assume "starts_with (c # cs) n"
      then obtain post where "c # cs = [] @ n @ post" by (auto simp: starts_with_iff)
      then show ?thesis by blast
    next
      assume "contains cs n"
      with Cons.IH obtain pre post where "cs = pre @ n @ post" by blast
      then have "c # cs = (c # pre) @ n @ post" by simp
      then show ?thesis by blast
    qed
  qed
next
  assume "\<exists>pre post. hay = pre @ n @ post"
  then show "contains hay n" by (auto simp: contains_middle)
qed

lemma replace_all_angle:
  "replace_all angle [] s = filter (\<lambda>c. c \<noteq> 0x3C \<and> c \<noteq> 0x3E) s"
  by (induction s) (simp_all add: angle_def)

lemma message_html_truthy:
  "truthy m \<Longrightarrow> message_html m = filter (\<lambda>c. c \<noteq> 0x3C \<and> c \<noteq> 0x3E) (ToString m)"
  by (simp add: message_html_def replace_all_angle)

section \<open>Facts about the example inputs\<close>

lemma body_or_empty_None: "get_prop (body_or_empty None) k = JUndefined"
  by (simp add: body_or_empty_def get_prop_def)

lemma isEmail_example: "isEmail (JStr (lit ''al@b.co''))"
proof -
  have "lit ''al@b.co'' = lit ''al'' @ [0x40] @ lit ''b'' @ [0x2E] @ lit ''co''"
    by (simp add: lit_simps)
  moreover have "plain (lit ''al'')" "plain (lit ''b'')" "plain (lit ''co'')"
    by (simp_all add: plain_def is_space_def lit_simps)
  ultimately show ?thesis unfolding isEmail_JStr by blast
qed

lemma body0_simps:
  "get_prop body0 ''name'' = JStr (lit ''Al'')"
  "get_prop body0 ''email'' = JStr (lit ''al@b.co'')"
  "get_prop body0 ''phone'' = JStr (lit ''555'')"
  "get_prop body0 ''city'' = JStr (lit ''LA'')"
  "get_prop body0 ''type'' = JUndefined"
  "get_prop body0 ''message'' = JUndefined"
  by (simp_all add: body0_def get_prop_def)

lemma lit_Nil_iff: "lit s = [] \<longleftrightarrow> s = []"
  by (simp add: lit_def)

lemma accepted_body0: "accepted (Some body0)"
  by (simp add: accepted_def body_or_empty_def body0_simps isEmail_example lit_Nil_iff)

lemma env0_enabled: "getenv env0 ''DISABLE_EMAIL'' \<noteq> JStr (lit ''true'')"
  by (simp add: getenv_def env0_def)

lemma env_disabled_set: "env_disabled ''DISABLE_EMAIL'' = Some (lit ''true'')"
  by (simp add: env_disabled_def)

lemma timeout_name: "lit ''connect ECONNREFUSED'' \<noteq> lit ''SMTP_TIMEOUT''"
  by (simp add: lit_simps)

lemma no_dot_example:
  "lit ''al.jones@example'' = lit ''al.jones'' @ [0x40] @ lit ''example''"
  "0x2E \<notin> set (lit ''example'')"
  "0x40 \<notin> set (lit ''al.example.com'')"
  by (simp_all add: lit_simps)

lemma body_markup_simps:
  "get_prop body_markup ''name'' = JStr (lit ''<b>Al</b>'')"
  "get_prop body_markup ''email'' = JStr (lit ''al@b.co'')"
  "get_prop body_markup ''phone'' = JStr (lit ''555'')"
  "get_prop body_markup ''city'' = JStr (lit ''LA'')"
  "get_prop body_markup ''type'' = JUndefined"
  "get_prop body_markup ''message'' = JStr (lit ''<i>hi</i> 1 > 0'')"
  by (simp_all add: body_markup_def body0_def get_prop_def)

lemma accepted_body_markup: "accepted (Some body_markup)"
  by (simp add: accepted_def body_or_empty_def body_markup_simps isEmail_example lit_Nil_iff)

lemma stripped_example:
  "filter (\<lambda>c. c \<noteq> 0x3C \<and> c \<noteq> 0x3E) (lit ''<i>hi</i> 1 > 0'') = lit ''ihi/i 1  0''"
  by (simp add: lit_simps)

lemma markup_kept: "0x3C \<in> set (lit ''<b>Al</b>'')" "0x3E \<in> set (lit ''<b>Al</b>'')"
  by (simp_all add: lit_simps)


lemma mails_disabled_body0:
  "mail_to (internal_mail env_disabled now0 body0) = JStr (lit ''joe@patioblindsdirect.com'')"
  "mail_to (autoresp_mail env_disabled body0) = JStr (lit ''al@b.co'')"
  by (simp_all add: internal_mail_def autoresp_mail_def LEADS_TO_def getenv_def env0_def
        env_disabled_def or_else_def body0_simps)

lemma relay_ok_ids:
  "lit ''<'' @ lit ''joe@patioblindsdirect.com'' @ lit ''>'' = lit ''<joe@patioblindsdirect.com>''"
  "lit ''<'' @ lit ''al@b.co'' @ lit ''>'' = lit ''<al@b.co>''"
  by (simp_all add: lit_def)

lemma allow_list_env0: "allow_list env0 = [lit ''https://a.test'', lit ''https://b.test'']"
  by (simp add: allow_list_def env0_def getenv_def or_else_def lit_simps Let_def trim_def
        is_space_def)

section \<open>Facts about the two handlers\<close>

text \<open>
  The handler with the timer, for an accepted request with email enabled: what it does by
  the outcome of the two sends.
\<close>

lemma send_estimate_accepted:
  assumes "accepted reqBody" and "getenv e ''DISABLE_EMAIL'' \<noteq> JStr (lit ''true'')"
  shows "send_estimate e now sendMail second_first reqBody =
     (case Promise_all second_first
             (sendWithTimeout (sendMail (internal_mail e now (body_or_empty reqBody))) 7000)
             (sendWithTimeout (sendMail (autoresp_mail e (body_or_empty reqBody))) 7000) of
        Inr (internal, autoresp) \<Rightarrow>
          \<lparr>reply = \<lparr>status = 200,
                    body = [(''ok'', JBool True),
                            (''leadId'', or_else (messageId internal) JNull),
                            (''autoId'', or_else (messageId autoresp) JNull)]\<rparr>,
           sendCalls = [internal_mail e now (body_or_empty reqBody),
                        autoresp_mail e (body_or_empty reqBody)],
           logged = []\<rparr>
      | Inl err \<Rightarrow>
          \<lparr>reply = failure (if message err = lit ''SMTP_TIMEOUT'' then 504 else 502)
                     ''MAIL_SEND_FAILED'',
           sendCalls = [internal_mail e now (body_or_empty reqBody),
                        autoresp_mail e (body_or_empty reqBody)],
           logged = [err]\<rparr>)"
  using assms by (simp add: send_estimate_def accepted_def Let_def split: sum.split)

lemma caught_error:
  assumes "\<not> (\<exists>i j. p = Fulfilled i \<and> q = Fulfilled j)"
  shows "\<exists>err. Promise_all sf (sendWithTimeout p m) (sendWithTimeout q n) = Inl err
          \<and> (p = Rejected err \<or> q = Rejected err
             \<or> ((p = Pending \<or> q = Pending) \<and> err = Error (lit ''SMTP_TIMEOUT'')))"
  using assms
  by (cases p; cases q) (simp_all add: Promise_all_def sendWithTimeout_def)

lemma send_estimate_failure:
  assumes ok: "accepted reqBody"
    and on: "getenv e ''DISABLE_EMAIL'' \<noteq> JStr (lit ''true'')"
    and p: "p = sendMail (internal_mail e now (body_or_empty reqBody))"
    and q: "q = sendMail (autoresp_mail e (body_or_empty reqBody))"
    and fails: "\<not> (\<exists>i j. p = Fulfilled i \<and> q = Fulfilled j)"
  shows "\<exists>err.
      (p = Rejected err \<or> q = Rejected err
         \<or> ((p = Pending \<or> q = Pending) \<and> err = Error (lit ''SMTP_TIMEOUT'')))
      \<and> send_estimate e now sendMail second_first reqBody =
          \<lparr>reply = failure (if message err = lit ''SMTP_TIMEOUT'' then 504 else 502)
                     ''MAIL_SEND_FAILED'',
           sendCalls = [internal_mail e now (body_or_empty reqBody),
                        autoresp_mail e (body_or_empty reqBody)],
           logged = [err]\<rparr>"
proof -
  from fails obtain err where
    all: "Promise_all second_first (sendWithTimeout p 7000) (sendWithTimeout q 7000) = Inl err"
    and why: "p = Rejected err \<or> q = Rejected err
         \<or> ((p = Pending \<or> q = Pending) \<and> err = Error (lit ''SMTP_TIMEOUT''))"
    using caught_error by blast
  from all have
    "send_estimate e now sendMail second_first reqBody =
       \<lparr>reply = failure (if message err = lit ''SMTP_TIMEOUT'' then 504 else 502)
                  ''MAIL_SEND_FAILED'',
        sendCalls = [internal_mail e now (body_or_empty reqBody),
                     autoresp_mail e (body_or_empty reqBody)],
        logged = [err]\<rparr>"
    unfolding p q by (simp add: send_estimate_accepted [OF ok on])
  with why show ?thesis by blast
qed


lemma send_estimate_calls:
  assumes "accepted reqBody" and "getenv e ''DISABLE_EMAIL'' \<noteq> JStr (lit ''true'')"
  shows "sendCalls (send_estimate e now sendMail second_first reqBody) =
           [internal_mail e now (body_or_empty reqBody), autoresp_mail e (body_or_empty reqBody)]"
  by (simp add: send_estimate_accepted [OF assms] split: sum.split)

lemma send_estimate_index_calls:
  assumes "accepted reqBody"
    and "sendMail (internal_mail e now (body_or_empty reqBody)) = Fulfilled i"
  shows "sendCalls (send_estimate_index e now sendMail reqBody) =
           [internal_mail e now (body_or_empty reqBody), autoresp_mail e (body_or_empty reqBody)]"
  using assms
  by (simp add: send_estimate_index_def accepted_def Let_def split: promise.split)

text \<open>
  The handler of \<open>index.js\<close>: every failed send is answered with status 500, a send that
  never settles leaves the request unanswered, the identifiers of a delivery are passed on
  as they are, and the variable \<open>DISABLE_EMAIL\<close> is not read.
\<close>

lemma send_estimate_index_failure:
  assumes "accepted reqBody"
    and "sendMail (internal_mail e now (body_or_empty reqBody)) = Rejected err
         \<or> (\<exists>i. sendMail (internal_mail e now (body_or_empty reqBody)) = Fulfilled i
                 \<and> sendMail (autoresp_mail e (body_or_empty reqBody)) = Rejected err)"
  shows "reply (send_estimate_index e now sendMail reqBody) =
           Some \<lparr>status = 500,
                 body = [(''ok'', JBool False), (''error'', JStr (lit ''MAIL_SEND_FAILED''))]\<rparr>"
  using assms
  by (auto simp: send_estimate_index_def accepted_def Let_def failure_def)

lemma send_estimate_index_hangs:
  assumes "accepted reqBody"
    and "sendMail (internal_mail e now (body_or_empty reqBody)) = Pending"
  shows "reply (send_estimate_index e now sendMail reqBody) = None"
  using assms
  by (simp add: send_estimate_index_def accepted_def Let_def)


lemma send_estimate_index_failed:
  assumes ok: "accepted reqBody"
    and p: "p = sendMail (internal_mail e now (body_or_empty reqBody))"
    and q: "q = sendMail (autoresp_mail e (body_or_empty reqBody))"
    and fails: "\<not> (\<exists>i j. p = Fulfilled i \<and> q = Fulfilled j)"
  shows "reply (send_estimate_index e now sendMail reqBody) =
           (if p = Pending \<or> ((\<exists>i. p = Fulfilled i) \<and> q = Pending) then None
            else Some \<lparr>status = 500,
                       body = [(''ok'', JBool False),
                               (''error'', JStr (lit ''MAIL_SEND_FAILED''))]\<rparr>)"
proof (cases "sendMail (internal_mail e now (body_or_empty reqBody))")
  case (Fulfilled i)
  with fails p q show ?thesis
    using ok
    by (cases "sendMail (autoresp_mail e (body_or_empty reqBody))")
       (simp_all add: send_estimate_index_def accepted_def Let_def failure_def)
next
  case (Rejected err)
  with p show ?thesis
    using ok by (simp add: send_estimate_index_def accepted_def Let_def failure_def)
next
  case Pending
  with p show ?thesis
    using ok by (simp add: send_estimate_index_def accepted_def Let_def)
qed

lemma mails_ignore_switch:
  "internal_mail (e(''DISABLE_EMAIL'' := v)) now b = internal_mail e now b"
  "autoresp_mail (e(''DISABLE_EMAIL'' := v)) b = autoresp_mail e b"
  by (simp_all add: internal_mail_def autoresp_mail_def from_header_def FROM_NAME_def
        FROM_ADDR_def LEADS_TO_def getenv_def)

lemma send_estimate_index_ignores_switch:
  "send_estimate_index (e(''DISABLE_EMAIL'' := v)) now sendMail reqBody =
     send_estimate_index e now sendMail reqBody"
  unfolding send_estimate_index_def mails_ignore_switch by (rule refl)

lemma send_estimate_index_first_call:
  assumes "accepted reqBody"
  shows "take 1 (sendCalls (send_estimate_index e now sendMail reqBody)) =
           [internal_mail e now (body_or_empty reqBody)]"
  using assms
  by (simp add: send_estimate_index_def accepted_def Let_def split: promise.split)

section \<open>Validation\<close>

text \<open>
  Claim C1. A request to \<open>POST /api/send-estimate\<close> in which one of the four required
  fields \<open>name\<close>, \<open>email\<close>, \<open>phone\<close>, \<open>city\<close> is absent (the destructured variable is
  \<open>undefined\<close>), or which has no body at all, is answered with status 400 and the body
  \<open>{ok: false, error: 'MISSING_FIELDS'}\<close>, and nothing is handed to the mail transport:
  the answer does not depend on the transport. Both server files do so.
\<close>

theorem missing_fields_rejected:
  assumes "reqBody = None \<or>
           (\<exists>k \<in> {''name'', ''email'', ''phone'', ''city''}.
              get_prop (body_or_empty reqBody) k = JUndefined)"
  shows "send_estimate e now sendMail second_first reqBody =
           \<lparr>reply = \<lparr>status = 400,
                     body = [(''ok'', JBool False), (''error'', JStr (lit ''MISSING_FIELDS''))]\<rparr>,
            sendCalls = [], logged = []\<rparr>
         \<and> send_estimate_index e now sendMail reqBody =
           \<lparr>reply = Some \<lparr>status = 400,
                     body = [(''ok'', JBool False), (''error'', JStr (lit ''MISSING_FIELDS''))]\<rparr>,
            sendCalls = [], logged = []\<rparr>"
proof -
  from assms obtain k where
    k: "k \<in> {''name'', ''email'', ''phone'', ''city''}"
    and u: "get_prop (body_or_empty reqBody) k = JUndefined"
    using body_or_empty_None by blast
  from u have "\<not> truthy (get_prop (body_or_empty reqBody) k)" by simp
  with k have missing:
    "\<not> truthy (get_prop (body_or_empty reqBody) ''name'')
     \<or> \<not> truthy (get_prop (body_or_empty reqBody) ''email'')
     \<or> \<not> truthy (get_prop (body_or_empty reqBody) ''phone'')
     \<or> \<not> truthy (get_prop (body_or_empty reqBody) ''city'')"
    by blast
  then show ?thesis
    by (simp add: send_estimate_def send_estimate_index_def Let_def failure_def)
qed

theorem missing_fields_rejected_witness:
  "send_estimate env0 now0 relay_ok False (Some (body0(''phone'' := None))) =
     \<lparr>reply = \<lparr>status = 400,
               body = [(''ok'', JBool False), (''error'', JStr (lit ''MISSING_FIELDS''))]\<rparr>,
      sendCalls = [], logged = []\<rparr>
   \<and> send_estimate env0 now0 relay_ok False None =
     \<lparr>reply = \<lparr>status = 400,
               body = [(''ok'', JBool False), (''error'', JStr (lit ''MISSING_FIELDS''))]\<rparr>,
      sendCalls = [], logged = []\<rparr>
   \<and> get_prop (body_or_empty (Some (body0(''phone'' := None)))) ''phone'' = JUndefined"
proof -
  have u: "get_prop (body_or_empty (Some (body0(''phone'' := None)))) ''phone'' = JUndefined"
    by (simp add: body_or_empty_def get_prop_def)
  then have "\<exists>k \<in> {''name'', ''email'', ''phone'', ''city''}.
      get_prop (body_or_empty (Some (body0(''phone'' := None)))) k = JUndefined"
    by blast
  then show ?thesis
    using u missing_fields_rejected [of "Some (body0(''phone'' := None))" env0 now0 relay_ok False]
      missing_fields_rejected [of None env0 now0 relay_ok False]
    by simp
qed

lemma invalid_email_general:
  assumes "truthy (get_prop (body_or_empty reqBody) ''name'')"
    and "truthy (get_prop (body_or_empty reqBody) ''email'')"
    and "truthy (get_prop (body_or_empty reqBody) ''phone'')"
    and "truthy (get_prop (body_or_empty reqBody) ''city'')"
    and "\<not> isEmail (get_prop (body_or_empty reqBody) ''email'')"
  shows "send_estimate e now sendMail second_first reqBody =
           \<lparr>reply = failure 400 ''INVALID_EMAIL'', sendCalls = [], logged = []\<rparr>"
    and "send_estimate_index e now sendMail reqBody =
           \<lparr>reply = Some (failure 400 ''INVALID_EMAIL''), sendCalls = [], logged = []\<rparr>"
  using assms by (simp_all add: send_estimate_def send_estimate_index_def Let_def)

text \<open>
  Claim C5. A request whose four required fields are present (none is caught by the test
  \<open>!field\<close>) and whose email, as a string, has no \<open>@\<close>, or has no dot in its domain
  part (what follows an \<open>@\<close> of it), is answered with status 400 and the body
  \<open>{ok: false, error: 'INVALID_EMAIL'}\<close>, and nothing is handed to the mail transport.
  Both server files do so.
\<close>

theorem invalid_email_rejected:
  assumes "truthy (get_prop (body_or_empty reqBody) ''name'')"
    and "truthy (get_prop (body_or_empty reqBody) ''email'')"
    and "truthy (get_prop (body_or_empty reqBody) ''phone'')"
    and "truthy (get_prop (body_or_empty reqBody) ''city'')"
    and "0x40 \<notin> set (ToString (get_prop (body_or_empty reqBody) ''email''))
         \<or> (\<exists>local domain.
               ToString (get_prop (body_or_empty reqBody) ''email'') = local @ [0x40] @ domain
               \<and> 0x2E \<notin> set domain)"
  shows "send_estimate e now sendMail second_first reqBody =
           \<lparr>reply = \<lparr>status = 400,
                     body = [(''ok'', JBool False), (''error'', JStr (lit ''INVALID_EMAIL''))]\<rparr>,
            sendCalls = [], logged = []\<rparr>
         \<and> send_estimate_index e now sendMail reqBody =
           \<lparr>reply = Some \<lparr>status = 400,
                     body = [(''ok'', JBool False), (''error'', JStr (lit ''INVALID_EMAIL''))]\<rparr>,
            sendCalls = [], logged = []\<rparr>"
proof -
  from assms(5) have "\<not> isEmail (get_prop (body_or_empty reqBody) ''email'')"
    using isEmail_has_at isEmail_one_at by blast
  with assms(1-4) show ?thesis
    by (simp add: invalid_email_general failure_def)
qed

theorem invalid_email_rejected_witness:
  "send_estimate env0 now0 relay_ok False (Some (body0(''email'' \<mapsto> JStr (lit ''al.jones@example'')))) =
     \<lparr>reply = \<lparr>status = 400,
               body = [(''ok'', JBool False), (''error'', JStr (lit ''INVALID_EMAIL''))]\<rparr>,
      sendCalls = [], logged = []\<rparr>
   \<and> send_estimate env0 now0 relay_ok False (Some (body0(''email'' \<mapsto> JStr (lit ''al.example.com'')))) =
     \<lparr>reply = \<lparr>status = 400,
               body = [(''ok'', JBool False), (''error'', JStr (lit ''INVALID_EMAIL''))]\<rparr>,
      sendCalls = [], logged = []\<rparr>"
proof -
  have f: "\<And>v. get_prop (body_or_empty (Some (body0(''email'' \<mapsto> v)))) ''name'' = JStr (lit ''Al'')"
    "\<And>v. get_prop (body_or_empty (Some (body0(''email'' \<mapsto> v)))) ''email'' = v"
    "\<And>v. get_prop (body_or_empty (Some (body0(''email'' \<mapsto> v)))) ''phone'' = JStr (lit ''555'')"
    "\<And>v. get_prop (body_or_empty (Some (body0(''email'' \<mapsto> v)))) ''city'' = JStr (lit ''LA'')"
    by (simp_all add: body_or_empty_def get_prop_def body0_def)
  have t: "\<And>v. truthy (get_prop (body_or_empty (Some (body0(''email'' \<mapsto> v)))) ''name'')"
    "\<And>v. truthy (get_prop (body_or_empty (Some (body0(''email'' \<mapsto> v)))) ''phone'')"
    "\<And>v. truthy (get_prop (body_or_empty (Some (body0(''email'' \<mapsto> v)))) ''city'')"
    by (simp_all add: f lit_Nil_iff)
  have e1: "truthy (get_prop (body_or_empty (Some (body0(''email'' \<mapsto> JStr (lit ''al.jones@example''))))) ''email'')"
    and e2: "truthy (get_prop (body_or_empty (Some (body0(''email'' \<mapsto> JStr (lit ''al.example.com''))))) ''email'')"
    by (simp_all add: f lit_Nil_iff)
  have nodot: "0x40 \<notin> set (ToString (get_prop (body_or_empty (Some (body0(''email'' \<mapsto> JStr (lit ''al.jones@example''))))) ''email''))
     \<or> (\<exists>local domain.
          ToString (get_prop (body_or_empty (Some (body0(''email'' \<mapsto> JStr (lit ''al.jones@example''))))) ''email'')
            = local @ [0x40] @ domain \<and> 0x2E \<notin> set domain)"
    unfolding f ToString.simps using no_dot_example(1,2) by blast
  have noat: "0x40 \<notin> set (ToString (get_prop (body_or_empty (Some (body0(''email'' \<mapsto> JStr (lit ''al.example.com''))))) ''email''))
     \<or> (\<exists>local domain.
          ToString (get_prop (body_or_empty (Some (body0(''email'' \<mapsto> JStr (lit ''al.example.com''))))) ''email'')
            = local @ [0x40] @ domain \<and> 0x2E \<notin> set domain)"
    unfolding f ToString.simps using no_dot_example(3) by blast
  show ?thesis
    using invalid_email_rejected [OF t(1) e1 t(2) t(3) nodot, of env0 now0 relay_ok False]
      invalid_email_rejected [OF t(1) e2 t(2) t(3) noat, of env0 now0 relay_ok False]
    by simp
qed


section \<open>The switch that disables email\<close>

text \<open>
  Claim C6, as amended. In the handler that tests the switch (the server file with the send
  timer), when the environment variable \<open>DISABLE_EMAIL\<close> is \<open>'true'\<close>, a request that
  passes validation is answered with status 200 and the body
  \<open>{ok: true, note: 'email disabled', submittedAt}\<close>, where \<open>submittedAt\<close> is the time
  \<open>nowISO()\<close> returns, and nothing is handed to the mail transport. The handler of
  \<open>index.js\<close> has no such switch: what it does is the same with the variable set and
  without it, and it hands the internal notice to the transport first.
\<close>

theorem email_disabled_skips_sending:
  assumes "accepted reqBody" and "e ''DISABLE_EMAIL'' = Some (lit ''true'')"
  shows "send_estimate e now sendMail second_first reqBody =
           \<lparr>reply = \<lparr>status = 200,
                     body = [(''ok'', JBool True), (''note'', JStr (lit ''email disabled'')),
                             (''submittedAt'', JStr now)]\<rparr>,
            sendCalls = [], logged = []\<rparr>
    \<and> send_estimate_index e now sendMail reqBody =
        send_estimate_index (e(''DISABLE_EMAIL'' := None)) now sendMail reqBody
    \<and> take 1 (sendCalls (send_estimate_index e now sendMail reqBody)) =
        [internal_mail e now (body_or_empty reqBody)]"
proof -
  have "send_estimate e now sendMail second_first reqBody =
           \<lparr>reply = \<lparr>status = 200,
                     body = [(''ok'', JBool True), (''note'', JStr (lit ''email disabled'')),
                             (''submittedAt'', JStr now)]\<rparr>,
            sendCalls = [], logged = []\<rparr>"
    using assms by (simp add: send_estimate_def accepted_def Let_def getenv_def)
  with send_estimate_index_first_call [OF assms(1)] show ?thesis
    by (simp add: send_estimate_index_ignores_switch)
qed

theorem email_disabled_skips_sending_witness:
  "send_estimate env_disabled now0 relay_ok False (Some body0) =
     \<lparr>reply = \<lparr>status = 200,
               body = [(''ok'', JBool True), (''note'', JStr (lit ''email disabled'')),
                       (''submittedAt'', JStr (lit ''2024-05-01T10:00:00.000Z''))]\<rparr>,
      sendCalls = [], logged = []\<rparr>
   \<and> take 1 (sendCalls (send_estimate_index env_disabled now0 relay_ok (Some body0))) =
       [internal_mail env_disabled now0 body0]"
proof -
  note t = email_disabled_skips_sending
          [where e = env_disabled and reqBody = "Some body0" and now = now0
             and sendMail = relay_ok and second_first = False,
           OF accepted_body0 env_disabled_set]
  from t [THEN conjunct1] t [THEN conjunct2, THEN conjunct2] show ?thesis
    by (simp add: now0_def body_or_empty_def)
qed

text \<open>
  The claim as first stated, for every request to the route, fails on the handler of
  \<open>index.js\<close>: with the switch set it sends both messages and answers with their
  identifiers.
\<close>

theorem disable_switch_index_counterexample:
  "env_disabled ''DISABLE_EMAIL'' = Some (lit ''true'')
   \<and> accepted (Some body0)
   \<and> send_estimate_index env_disabled now0 relay_ok (Some body0) =
       \<lparr>reply = Some \<lparr>status = 200,
                      body = [(''ok'', JBool True),
                              (''leadId'', JStr (lit ''<joe@patioblindsdirect.com>'')),
                              (''autoId'', JStr (lit ''<al@b.co>''))]\<rparr>,
        sendCalls = [internal_mail env_disabled now0 body0, autoresp_mail env_disabled body0],
        logged = []\<rparr>"
proof -
  have "send_estimate_index env_disabled now0 relay_ok (Some body0) =
       \<lparr>reply = Some \<lparr>status = 200,
                      body = [(''ok'', JBool True),
                              (''leadId'', JStr (lit ''<joe@patioblindsdirect.com>'')),
                              (''autoId'', JStr (lit ''<al@b.co>''))]\<rparr>,
        sendCalls = [internal_mail env_disabled now0 body0, autoresp_mail env_disabled body0],
        logged = []\<rparr>"
    by (simp add: send_estimate_index_def Let_def relay_ok_def body_or_empty_def
          mails_disabled_body0 body0_simps isEmail_example lit_Nil_iff relay_ok_ids)
  then show ?thesis by (simp add: env_disabled_set accepted_body0)
qed


section \<open>Failed sends\<close>

text \<open>
  Claim C2, as amended. For an accepted request whose sends do not both succeed:
  the handler with the send timer, with email enabled, catches one error, the rejection
  of one of the two sends or the error \<open>SMTP_TIMEOUT\<close> of a timer when a send was still
  pending; it answers 504 when the message of that error is \<open>SMTP_TIMEOUT\<close> (the timer's
  error, or a rejection by the transport with that very message) and 502 otherwise. The
  handler of \<open>index.js\<close> answers 500 for every rejected send, and does not answer while
  a send stays pending. In both, the body of the response is
  \<open>{ok: false, error: 'MAIL_SEND_FAILED'}\<close> whatever the error: its text goes to the
  server's log only.
\<close>

theorem send_failure_status:
  assumes ok: "accepted reqBody"
    and p: "p = sendMail (internal_mail e now (body_or_empty reqBody))"
    and q: "q = sendMail (autoresp_mail e (body_or_empty reqBody))"
    and fails: "\<not> (\<exists>i j. p = Fulfilled i \<and> q = Fulfilled j)"
  shows "(getenv e ''DISABLE_EMAIL'' \<noteq> JStr (lit ''true'') \<longrightarrow>
      (\<exists>err.
        logged (send_estimate e now sendMail second_first reqBody) = [err]
        \<and> (p = Rejected err \<or> q = Rejected err
           \<or> ((p = Pending \<or> q = Pending) \<and> err = Error (lit ''SMTP_TIMEOUT'')))
        \<and> reply (send_estimate e now sendMail second_first reqBody) =
            \<lparr>status = (if message err = lit ''SMTP_TIMEOUT'' then 504 else 502),
             body = [(''ok'', JBool False), (''error'', JStr (lit ''MAIL_SEND_FAILED''))]\<rparr>)
      \<and> ((\<forall>x. p = Rejected x \<or> q = Rejected x \<longrightarrow> message x = lit ''SMTP_TIMEOUT'') \<longrightarrow>
           status (reply (send_estimate e now sendMail second_first reqBody)) = 504)
      \<and> (p \<noteq> Pending \<and> q \<noteq> Pending
           \<and> (\<forall>x. p = Rejected x \<or> q = Rejected x \<longrightarrow> message x \<noteq> lit ''SMTP_TIMEOUT'') \<longrightarrow>
           status (reply (send_estimate e now sendMail second_first reqBody)) = 502))
    \<and> reply (send_estimate_index e now sendMail reqBody) =
        (if p = Pending \<or> ((\<exists>i. p = Fulfilled i) \<and> q = Pending) then None
         else Some \<lparr>status = 500,
                    body = [(''ok'', JBool False),
                            (''error'', JStr (lit ''MAIL_SEND_FAILED''))]\<rparr>)"
proof -
  have timer: "getenv e ''DISABLE_EMAIL'' \<noteq> JStr (lit ''true'') \<longrightarrow>
      (\<exists>err.
        logged (send_estimate e now sendMail second_first reqBody) = [err]
        \<and> (p = Rejected err \<or> q = Rejected err
           \<or> ((p = Pending \<or> q = Pending) \<and> err = Error (lit ''SMTP_TIMEOUT'')))
        \<and> reply (send_estimate e now sendMail second_first reqBody) =
            \<lparr>status = (if message err = lit ''SMTP_TIMEOUT'' then 504 else 502),
             body = [(''ok'', JBool False), (''error'', JStr (lit ''MAIL_SEND_FAILED''))]\<rparr>)
      \<and> ((\<forall>x. p = Rejected x \<or> q = Rejected x \<longrightarrow> message x = lit ''SMTP_TIMEOUT'') \<longrightarrow>
           status (reply (send_estimate e now sendMail second_first reqBody)) = 504)
      \<and> (p \<noteq> Pending \<and> q \<noteq> Pending
           \<and> (\<forall>x. p = Rejected x \<or> q = Rejected x \<longrightarrow> message x \<noteq> lit ''SMTP_TIMEOUT'') \<longrightarrow>
           status (reply (send_estimate e now sendMail second_first reqBody)) = 502)"
  proof
    assume on: "getenv e ''DISABLE_EMAIL'' \<noteq> JStr (lit ''true'')"
    from send_estimate_failure [OF ok on p q fails, of second_first] obtain err where
      why: "p = Rejected err \<or> q = Rejected err
           \<or> ((p = Pending \<or> q = Pending) \<and> err = Error (lit ''SMTP_TIMEOUT''))"
      and run: "send_estimate e now sendMail second_first reqBody =
            \<lparr>reply = failure (if message err = lit ''SMTP_TIMEOUT'' then 504 else 502)
                       ''MAIL_SEND_FAILED'',
             sendCalls = [internal_mail e now (body_or_empty reqBody),
                          autoresp_mail e (body_or_empty reqBody)],
             logged = [err]\<rparr>"
      by blast
    have first: "\<exists>err.
        logged (send_estimate e now sendMail second_first reqBody) = [err]
        \<and> (p = Rejected err \<or> q = Rejected err
           \<or> ((p = Pending \<or> q = Pending) \<and> err = Error (lit ''SMTP_TIMEOUT'')))
        \<and> reply (send_estimate e now sendMail second_first reqBody) =
            \<lparr>status = (if message err = lit ''SMTP_TIMEOUT'' then 504 else 502),
             body = [(''ok'', JBool False), (''error'', JStr (lit ''MAIL_SEND_FAILED''))]\<rparr>"
      using why run by (simp add: failure_def)
    have timeout: "(\<forall>x. p = Rejected x \<or> q = Rejected x \<longrightarrow> message x = lit ''SMTP_TIMEOUT'') \<longrightarrow>
           status (reply (send_estimate e now sendMail second_first reqBody)) = 504"
      using why run by (auto simp: failure_def)
    have other: "p \<noteq> Pending \<and> q \<noteq> Pending
           \<and> (\<forall>x. p = Rejected x \<or> q = Rejected x \<longrightarrow> message x \<noteq> lit ''SMTP_TIMEOUT'') \<longrightarrow>
           status (reply (send_estimate e now sendMail second_first reqBody)) = 502"
      using why run by (auto simp: failure_def)
    from first timeout other show
      "(\<exists>err.
        logged (send_estimate e now sendMail second_first reqBody) = [err]
        \<and> (p = Rejected err \<or> q = Rejected err
           \<or> ((p = Pending \<or> q = Pending) \<and> err = Error (lit ''SMTP_TIMEOUT'')))
        \<and> reply (send_estimate e now sendMail second_first reqBody) =
            \<lparr>status = (if message err = lit ''SMTP_TIMEOUT'' then 504 else 502),
             body = [(''ok'', JBool False), (''error'', JStr (lit ''MAIL_SEND_FAILED''))]\<rparr>)
      \<and> ((\<forall>x. p = Rejected x \<or> q = Rejected x \<longrightarrow> message x = lit ''SMTP_TIMEOUT'') \<longrightarrow>
           status (reply (send_estimate e now sendMail second_first reqBody)) = 504)
      \<and> (p \<noteq> Pending \<and> q \<noteq> Pending
           \<and> (\<forall>x. p = Rejected x \<or> q = Rejected x \<longrightarrow> message x \<noteq> lit ''SMTP_TIMEOUT'') \<longrightarrow>
           status (reply (send_estimate e now sendMail second_first reqBody)) = 502)"
      by blast
  qed
  from timer send_estimate_index_failed [OF ok p q fails] show ?thesis by blast
qed

theorem send_failure_status_witness:
  "reply (send_estimate env0 now0 relay_hung False (Some body0)) =
     \<lparr>status = 504,
      body = [(''ok'', JBool False), (''error'', JStr (lit ''MAIL_SEND_FAILED''))]\<rparr>
   \<and> reply (send_estimate env0 now0 relay_down False (Some body0)) =
     \<lparr>status = 502,
      body = [(''ok'', JBool False), (''error'', JStr (lit ''MAIL_SEND_FAILED''))]\<rparr>
   \<and> reply (send_estimate_index env0 now0 relay_down (Some body0)) =
     Some \<lparr>status = 500,
           body = [(''ok'', JBool False), (''error'', JStr (lit ''MAIL_SEND_FAILED''))]\<rparr>
   \<and> reply (send_estimate_index env0 now0 relay_hung (Some body0)) = None"
proof -
  have hung: "\<not> (\<exists>i j. relay_hung (internal_mail env0 now0 (body_or_empty (Some body0))) = Fulfilled i
                  \<and> relay_hung (autoresp_mail env0 (body_or_empty (Some body0))) = Fulfilled j)"
    by (simp add: relay_hung_def)
  have down: "\<not> (\<exists>i j. relay_down (internal_mail env0 now0 (body_or_empty (Some body0))) = Fulfilled i
                  \<and> relay_down (autoresp_mail env0 (body_or_empty (Some body0))) = Fulfilled j)"
    by (simp add: relay_down_def)
  note h = send_failure_status
         [where sendMail = relay_hung and e = env0 and now = now0 and reqBody = "Some body0"
            and second_first = False, OF accepted_body0 refl refl hung]
  note d = send_failure_status
         [where sendMail = relay_down and e = env0 and now = now0 and reqBody = "Some body0"
            and second_first = False, OF accepted_body0 refl refl down]
  from h env0_enabled
  have one: "reply (send_estimate env0 now0 relay_hung False (Some body0)) =
     \<lparr>status = 504,
      body = [(''ok'', JBool False), (''error'', JStr (lit ''MAIL_SEND_FAILED''))]\<rparr>"
    by (auto simp: relay_hung_def)
  from d env0_enabled
  have two: "reply (send_estimate env0 now0 relay_down False (Some body0)) =
     \<lparr>status = 502,
      body = [(''ok'', JBool False), (''error'', JStr (lit ''MAIL_SEND_FAILED''))]\<rparr>"
    by (auto simp: relay_down_def timeout_name)
  from d have three: "reply (send_estimate_index env0 now0 relay_down (Some body0)) =
     Some \<lparr>status = 500,
           body = [(''ok'', JBool False), (''error'', JStr (lit ''MAIL_SEND_FAILED''))]\<rparr>"
    by (simp add: relay_down_def)
  from h have four: "reply (send_estimate_index env0 now0 relay_hung (Some body0)) = None"
    by (simp add: relay_hung_def)
  from one two three four show ?thesis by simp
qed

text \<open>
  The claim as first stated, 504 for a timeout and 502 for any other failure on every
  request to the route, fails on the handler of \<open>index.js\<close>: a relay that refuses the
  connection is answered with 500, and one that never answers gets no response.
\<close>

theorem failure_status_index_counterexample:
  "accepted (Some body0)
   \<and> relay_down (internal_mail env0 now0 body0) = Rejected (Error (lit ''connect ECONNREFUSED''))
   \<and> reply (send_estimate_index env0 now0 relay_down (Some body0)) =
       Some \<lparr>status = 500,
             body = [(''ok'', JBool False), (''error'', JStr (lit ''MAIL_SEND_FAILED''))]\<rparr>
   \<and> relay_hung (internal_mail env0 now0 body0) = Pending
   \<and> reply (send_estimate_index env0 now0 relay_hung (Some body0)) = None"
proof -
  have a: "reply (send_estimate_index env0 now0 relay_down (Some body0)) =
       Some \<lparr>status = 500,
             body = [(''ok'', JBool False), (''error'', JStr (lit ''MAIL_SEND_FAILED''))]\<rparr>"
    by (rule send_estimate_index_failure [OF accepted_body0]) (simp add: relay_down_def)
  have b: "reply (send_estimate_index env0 now0 relay_hung (Some body0)) = None"
    by (rule send_estimate_index_hangs [OF accepted_body0]) (simp add: relay_hung_def)
  from a b show ?thesis by (simp add: accepted_body0 relay_down_def relay_hung_def)
qed


section \<open>Delivered sends\<close>




section \<open>The origin check\<close>

lemma configured_origins:
  "ToString (or_else (getenv e ''ALLOWED_ORIGIN'') (JStr [])) =
     (case e ''ALLOWED_ORIGIN'' of None \<Rightarrow> [] | Some v \<Rightarrow> v)"
  by (simp add: or_else_def getenv_def split: option.split)

lemma allow_list_iff:
  "s \<in> set (allow_list e) \<longleftrightarrow>
     s \<noteq> [] \<and> (\<exists>seg \<in> set (split_on 0x2C (case e ''ALLOWED_ORIGIN'' of None \<Rightarrow> [] | Some v \<Rightarrow> v)).
                  s = trim seg)"
  by (auto simp: allow_list_def configured_origins)

lemma array_includes_iff: "array_includes xs v \<longleftrightarrow> (\<exists>s \<in> set xs. v = JStr s)"
  by (cases v) auto

text \<open>
  Claim C8. The origin callback of cors permits a request with no Origin (the test
  \<open>!origin\<close>: the header is absent, or its value is empty), permits a request whose Origin
  is equal to an entry of the allow-list, and fails every other request with the error
  \<open>CORS blocked from origin: ...\<close>. The entries of the allow-list are the pieces of
  \<open>ALLOWED_ORIGIN\<close> between commas, trimmed, without the empty ones (\<open>split_on\<close> and
  \<open>trim\<close> are characterised by \<open>join_split_on\<close>, \<open>split_on_no_sep\<close>, \<open>trim_spaces\<close> and
  \<open>trim_ends\<close>). The same in both server files.
\<close>

theorem cors_origin_policy:
  "(\<not> truthy origin \<longrightarrow> cors_origin e origin = Inr True)
   \<and> (\<forall>s \<in> set (allow_list e). cors_origin e (JStr s) = Inr True)
   \<and> (truthy origin \<and> (\<forall>s \<in> set (allow_list e). origin \<noteq> JStr s) \<longrightarrow>
        cors_origin e origin =
          Inl (Error (lit ''CORS blocked from origin: '' @ ToString origin)))
   \<and> (\<forall>s. s \<in> set (allow_list e) \<longleftrightarrow>
        s \<noteq> [] \<and>
        (\<exists>seg \<in> set (split_on 0x2C (case e ''ALLOWED_ORIGIN'' of None \<Rightarrow> [] | Some v \<Rightarrow> v)).
           s = trim seg))"
proof -
  have a: "\<not> truthy origin \<longrightarrow> cors_origin e origin = Inr True"
    by (simp add: cors_origin_def)
  have b: "\<forall>s \<in> set (allow_list e). cors_origin e (JStr s) = Inr True"
    by (simp add: cors_origin_def)
  have c: "truthy origin \<and> (\<forall>s \<in> set (allow_list e). origin \<noteq> JStr s) \<longrightarrow>
        cors_origin e origin =
          Inl (Error (lit ''CORS blocked from origin: '' @ ToString origin))"
    by (auto simp: cors_origin_def array_includes_iff)
  from a b c allow_list_iff show ?thesis by blast
qed

theorem cors_origin_policy_witness:
  "cors_origin env0 JUndefined = Inr True
   \<and> cors_origin env0 (JStr (lit ''https://b.test'')) = Inr True
   \<and> cors_origin env0 (JStr (lit ''https://evil.test'')) =
       Inl (Error (lit ''CORS blocked from origin: https://evil.test''))"
proof -
  have ne: "lit ''https://evil.test'' \<noteq> lit ''https://a.test''"
    "lit ''https://evil.test'' \<noteq> lit ''https://b.test''"
    by (simp_all add: lit_simps)
  show ?thesis
    using cors_origin_policy [of JUndefined env0]
      cors_origin_policy [of "JStr (lit ''https://evil.test'')" env0]
    by (simp add: allow_list_env0 ne lit_Nil_iff lit_def)
qed


section \<open>The auto-reply\<close>

lemma html_message_label:
  "html_message = (lit ''<br>'' @ newline @ lit ''          '') @ lit ''Message: ''"
  by (simp add: html_message_def lit_def)

lemma html_foot_close:
  "\<exists>rest. html_foot = lit ''</p>'' @ rest"
  by (simp add: html_foot_def)

lemma contains_message:
  "contains (autoresp_html b) (lit ''Message: '' @ message_html (get_prop b ''message'') @ lit ''</p>'')"
proof -
  obtain rest where foot: "html_foot = lit ''</p>'' @ rest"
    using html_foot_close by blast
  let ?pre = "html_head @ ToString (get_prop b ''name'')
     @ html_intro @ ToString (get_prop b ''phone'')
     @ html_city @ ToString (get_prop b ''city'')
     @ html_type @ ToString (or_else (get_prop b ''type'') (JStr emdash))
     @ lit ''<br>'' @ newline @ lit ''          ''"
  have "autoresp_html b =
      ?pre @ (lit ''Message: '' @ message_html (get_prop b ''message'') @ lit ''</p>'') @ rest"
    by (simp add: autoresp_html_def html_message_label foot)
  then show ?thesis by (simp only: contains_middle)
qed

text \<open>
  Claim C9. For an accepted request with a message (a value the test
  \<open>message ? ... : ...\<close> takes as present), the auto-reply is the second message handed to the transport
  (by the handler with the timeout whenever email is enabled, by the handler of
  \<open>index.js\<close> once the internal notice is delivered), and its body is the template with,
  between \<open>Message: \<close> and \<open></p>\<close>, the text of the message without its \<open><\<close> and
  \<open>>\<close> characters, the other characters unchanged and in order.
\<close>

theorem message_sanitized:
  assumes ok: "accepted reqBody"
    and on: "getenv e ''DISABLE_EMAIL'' \<noteq> JStr (lit ''true'')"
    and b: "b = body_or_empty reqBody"
    and m: "truthy (get_prop b ''message'')"
  shows "sendCalls (send_estimate e now sendMail second_first reqBody) =
           [internal_mail e now b, autoresp_mail e b]
    \<and> (\<forall>i. sendMail (internal_mail e now b) = Fulfilled i \<longrightarrow>
          sendCalls (send_estimate_index e now sendMail reqBody) =
            [internal_mail e now b, autoresp_mail e b])
    \<and> content (autoresp_mail e b) =
        Html (html_head @ ToString (get_prop b ''name'')
              @ html_intro @ ToString (get_prop b ''phone'')
              @ html_city @ ToString (get_prop b ''city'')
              @ html_type @ ToString (or_else (get_prop b ''type'') (JStr emdash))
              @ html_message
              @ filter (\<lambda>c. c \<noteq> 0x3C \<and> c \<noteq> 0x3E) (ToString (get_prop b ''message''))
              @ html_foot)
    \<and> contains (autoresp_html b)
        (lit ''Message: ''
         @ filter (\<lambda>c. c \<noteq> 0x3C \<and> c \<noteq> 0x3E) (ToString (get_prop b ''message''))
         @ lit ''</p>'')"
proof -
  have calls: "sendCalls (send_estimate e now sendMail second_first reqBody) =
           [internal_mail e now b, autoresp_mail e b]"
    unfolding b by (rule send_estimate_calls [OF ok on])
  have index: "\<forall>i. sendMail (internal_mail e now b) = Fulfilled i \<longrightarrow>
          sendCalls (send_estimate_index e now sendMail reqBody) =
            [internal_mail e now b, autoresp_mail e b]"
    unfolding b using send_estimate_index_calls [OF ok] by blast
  have html: "content (autoresp_mail e b) =
        Html (html_head @ ToString (get_prop b ''name'')
              @ html_intro @ ToString (get_prop b ''phone'')
              @ html_city @ ToString (get_prop b ''city'')
              @ html_type @ ToString (or_else (get_prop b ''type'') (JStr emdash))
              @ html_message
              @ filter (\<lambda>c. c \<noteq> 0x3C \<and> c \<noteq> 0x3E) (ToString (get_prop b ''message''))
              @ html_foot)"
    by (simp add: autoresp_mail_def autoresp_html_def message_html_truthy [OF m])
  have inside: "contains (autoresp_html b)
        (lit ''Message: ''
         @ filter (\<lambda>c. c \<noteq> 0x3C \<and> c \<noteq> 0x3E) (ToString (get_prop b ''message''))
         @ lit ''</p>'')"
    using contains_message [of b] by (simp only: message_html_truthy [OF m])
  from calls index html inside show ?thesis by blast
qed

theorem message_sanitized_witness:
  "sendCalls (send_estimate env0 now0 relay_ok False (Some body_markup)) =
     [internal_mail env0 now0 body_markup, autoresp_mail env0 body_markup]
   \<and> contains (autoresp_html body_markup) (lit ''Message: ihi/i 1  0</p>'')"
proof -
  have b: "body_markup = body_or_empty (Some body_markup)"
    by (simp add: body_or_empty_def)
  have m: "truthy (get_prop body_markup ''message'')"
    by (simp add: body_markup_simps lit_Nil_iff)
  have l: "lit ''Message: ihi/i 1  0</p>'' = lit ''Message: '' @ lit ''ihi/i 1  0'' @ lit ''</p>''"
    by (simp add: lit_def)
  show ?thesis
    using message_sanitized
            [where sendMail = relay_ok and e = env0 and now = now0
               and reqBody = "Some body_markup" and second_first = False and b = body_markup,
             OF accepted_body_markup env0_enabled b m]
    by (simp add: body_markup_simps stripped_example l)
qed


lemma html_head_label: "\<exists>pre. html_head = pre @ lit ''Thanks, ''"
proof -
  have "html_head =
     (newline
      @ lit ''        <div style='' @ [0x22]
      @ lit ''font-family:Inter,system-ui,Arial,sans-serif;line-height:1.6;color:#111''
      @ [0x22] @ lit ''>'' @ newline
      @ lit ''          <h2 style='' @ [0x22] @ lit ''margin:0 0 8px'' @ [0x22]
      @ lit ''>'') @ lit ''Thanks, ''"
    by (simp add: html_head_def lit_def)
  then show ?thesis by blast
qed

lemma html_intro_parts: "\<exists>mid. html_intro = lit ''!</h2>'' @ mid @ lit ''Phone: ''"
proof -
  have "html_intro = lit ''!</h2>'' @ (newline
     @ lit ''          <p>We received your request for a free estimate. A specialist will contact you shortly.</p>''
     @ newline
     @ lit ''          <p><strong>Summary</strong><br>'' @ newline
     @ lit ''          '') @ lit ''Phone: ''"
    by (simp add: html_intro_def lit_def)
  then show ?thesis by blast
qed

lemma html_city_parts: "html_city = lit ''<br>'' @ (newline @ lit ''          '') @ lit ''City: ''"
  by (simp add: html_city_def lit_def)

lemma html_type_parts:
  "html_type = lit ''<br>'' @ (newline @ lit ''          '') @ lit ''Blind Type: ''"
  by (simp add: html_type_def lit_def)

lemma html_message_open: "\<exists>rest. html_message = lit ''<br>'' @ rest"
  by (simp add: html_message_def)

lemma contains_fields:
  "contains (autoresp_html b) (lit ''Thanks, '' @ ToString (get_prop b ''name'') @ lit ''!</h2>'')"
  "contains (autoresp_html b) (lit ''Phone: '' @ ToString (get_prop b ''phone'') @ lit ''<br>'')"
  "contains (autoresp_html b) (lit ''City: '' @ ToString (get_prop b ''city'') @ lit ''<br>'')"
  "contains (autoresp_html b)
     (lit ''Blind Type: '' @ ToString (or_else (get_prop b ''type'') (JStr emdash)) @ lit ''<br>'')"
proof -
  obtain p0 where head: "html_head = p0 @ lit ''Thanks, ''"
    using html_head_label by blast
  obtain mid where intro: "html_intro = lit ''!</h2>'' @ mid @ lit ''Phone: ''"
    using html_intro_parts by blast
  obtain rest where msg: "html_message = lit ''<br>'' @ rest"
    using html_message_open by blast
  let ?name = "ToString (get_prop b ''name'')"
  let ?phone = "ToString (get_prop b ''phone'')"
  let ?city = "ToString (get_prop b ''city'')"
  let ?type = "ToString (or_else (get_prop b ''type'') (JStr emdash))"
  let ?tail = "message_html (get_prop b ''message'') @ html_foot"
  have "autoresp_html b = p0 @ (lit ''Thanks, '' @ ?name @ lit ''!</h2>'')
      @ (mid @ lit ''Phone: '' @ ?phone @ html_city @ ?city @ html_type @ ?type
         @ html_message @ ?tail)"
    by (simp add: autoresp_html_def head intro)
  then show "contains (autoresp_html b) (lit ''Thanks, '' @ ?name @ lit ''!</h2>'')"
    by (simp only: contains_middle)
  have "autoresp_html b = (html_head @ ?name @ lit ''!</h2>'' @ mid)
      @ (lit ''Phone: '' @ ?phone @ lit ''<br>'')
      @ ((newline @ lit ''          '') @ lit ''City: '' @ ?city @ html_type @ ?type
         @ html_message @ ?tail)"
    by (simp add: autoresp_html_def intro html_city_parts)
  then show "contains (autoresp_html b) (lit ''Phone: '' @ ?phone @ lit ''<br>'')"
    by (simp only: contains_middle)
  have "autoresp_html b = (html_head @ ?name @ html_intro @ ?phone @ lit ''<br>''
        @ newline @ lit ''          '')
      @ (lit ''City: '' @ ?city @ lit ''<br>'')
      @ ((newline @ lit ''          '') @ lit ''Blind Type: '' @ ?type @ html_message @ ?tail)"
    by (simp add: autoresp_html_def html_city_parts html_type_parts)
  then show "contains (autoresp_html b) (lit ''City: '' @ ?city @ lit ''<br>'')"
    by (simp only: contains_middle)
  have "autoresp_html b = (html_head @ ?name @ html_intro @ ?phone @ html_city @ ?city
        @ lit ''<br>'' @ newline @ lit ''          '')
      @ (lit ''Blind Type: '' @ ?type @ lit ''<br>'')
      @ (rest @ ?tail)"
    by (simp add: autoresp_html_def html_type_parts msg)
  then show "contains (autoresp_html b) (lit ''Blind Type: '' @ ?type @ lit ''<br>'')"
    by (simp only: contains_middle)
qed

text \<open>
  Claim C10. Only the message is stripped: in the body of the auto-reply of every accepted
  request the name stands as it is between \<open>Thanks, \<close> and \<open>!</h2>\<close>, the phone between
  \<open>Phone: \<close> and \<open><br>\<close>, the city between \<open>City: \<close> and \<open><br>\<close>, and the type, when
  there is one, between \<open>Blind Type: \<close> and \<open><br>\<close>. So a name with \<open><\<close> and \<open>>\<close> in it
  reaches the body unchanged, as for the request \<open>body_markup\<close>.
\<close>

theorem other_fields_verbatim:
  assumes ok: "accepted reqBody"
    and on: "getenv e ''DISABLE_EMAIL'' \<noteq> JStr (lit ''true'')"
    and b: "b = body_or_empty reqBody"
  shows "sendCalls (send_estimate e now sendMail second_first reqBody) =
           [internal_mail e now b, autoresp_mail e b]
    \<and> (\<forall>i. sendMail (internal_mail e now b) = Fulfilled i \<longrightarrow>
          sendCalls (send_estimate_index e now sendMail reqBody) =
            [internal_mail e now b, autoresp_mail e b])
    \<and> content (autoresp_mail e b) = Html (autoresp_html b)
    \<and> contains (autoresp_html b)
        (lit ''Thanks, '' @ ToString (get_prop b ''name'') @ lit ''!</h2>'')
    \<and> contains (autoresp_html b)
        (lit ''Phone: '' @ ToString (get_prop b ''phone'') @ lit ''<br>'')
    \<and> contains (autoresp_html b)
        (lit ''City: '' @ ToString (get_prop b ''city'') @ lit ''<br>'')
    \<and> (truthy (get_prop b ''type'') \<longrightarrow>
          contains (autoresp_html b)
            (lit ''Blind Type: '' @ ToString (get_prop b ''type'') @ lit ''<br>''))"
proof -
  have calls: "sendCalls (send_estimate e now sendMail second_first reqBody) =
           [internal_mail e now b, autoresp_mail e b]"
    unfolding b by (rule send_estimate_calls [OF ok on])
  have index: "\<forall>i. sendMail (internal_mail e now b) = Fulfilled i \<longrightarrow>
          sendCalls (send_estimate_index e now sendMail reqBody) =
            [internal_mail e now b, autoresp_mail e b]"
    unfolding b using send_estimate_index_calls [OF ok] by blast
  have html: "content (autoresp_mail e b) = Html (autoresp_html b)"
    by (simp add: autoresp_mail_def)
  have type: "truthy (get_prop b ''type'') \<longrightarrow>
          contains (autoresp_html b)
            (lit ''Blind Type: '' @ ToString (get_prop b ''type'') @ lit ''<br>'')"
    using contains_fields(4) [of b] by (auto simp: or_else_def split: if_splits)
  from calls index html type contains_fields(1-3) [of b] show ?thesis by blast
qed

theorem other_fields_verbatim_witness:
  "accepted (Some body_markup)
   \<and> get_prop body_markup ''name'' = JStr (lit ''<b>Al</b>'')
   \<and> 0x3C \<in> set (lit ''<b>Al</b>'') \<and> 0x3E \<in> set (lit ''<b>Al</b>'')
   \<and> sendCalls (send_estimate env0 now0 relay_ok False (Some body_markup)) =
       [internal_mail env0 now0 body_markup, autoresp_mail env0 body_markup]
   \<and> content (autoresp_mail env0 body_markup) = Html (autoresp_html body_markup)
   \<and> contains (autoresp_html body_markup) (lit ''Thanks, <b>Al</b>!</h2>'')"
proof -
  have b: "body_markup = body_or_empty (Some body_markup)"
    by (simp add: body_or_empty_def)
  have l: "lit ''Thanks, <b>Al</b>!</h2>'' = lit ''Thanks, '' @ lit ''<b>Al</b>'' @ lit ''!</h2>''"
    by (simp add: lit_def)
  show ?thesis
    using other_fields_verbatim
            [where sendMail = relay_ok and e = env0 and now = now0
               and reqBody = "Some body_markup" and second_first = False and b = body_markup,
             OF accepted_body_markup env0_enabled b]
    by (simp add: body_markup_simps accepted_body_markup markup_kept l)
qed


end
